theory Spec2Isabelle
  imports Complex_Main "HOL-Library.Word"
begin

section \<open>JavaScript values used by CustomTextInput.tsx\<close>

text \<open>
  A JavaScript string is a sequence of UTF-16 code units: \<open>text.length\<close> counts them and
  \<open>cleanedText[i]\<close> reads one. A finite JavaScript number is modelled as a rational
  (every finite double is one; NaN and the infinities are left out). An array element or
  an optional property that is \<open>undefined\<close> (a hole included) is \<open>None\<close>.
\<close>

type_synonym code_unit = "16 word"
type_synonym js_string = "code_unit list"
type_synonym js_number = rat

text \<open>
  The class \<open>\s\<close> of a regular expression, which is also what \<open>String.prototype.trim\<close>
  removes: the WhiteSpace and LineTerminator code points of ECMAScript, all of them in the
  basic plane.
\<close>

definition is_space :: "code_unit \<Rightarrow> bool" where
  "is_space c \<longleftrightarrow>
     c = 0x0009 \<or> c = 0x000A \<or> c = 0x000B \<or> c = 0x000C \<or> c = 0x000D \<or> c = 0x0020 \<or>
     c = 0x00A0 \<or> c = 0x1680 \<or> (0x2000 \<le> c \<and> c \<le> 0x200A) \<or> c = 0x2028 \<or>
     c = 0x2029 \<or> c = 0x202F \<or> c = 0x205F \<or> c = 0x3000 \<or> c = 0xFEFF"

text \<open>\<open>pastedText.replace(/\s/g, "")\<close>\<close>

definition remove_spaces :: "js_string \<Rightarrow> js_string" where
  "remove_spaces s = filter (\<lambda>c. \<not> is_space c) s"

text \<open>\<open>s.trim()\<close>\<close>

definition trim :: "js_string \<Rightarrow> js_string" where
  "trim s = rev (dropWhile is_space (rev (dropWhile is_space s)))"

text \<open>Truthiness of a value that is a string or \<open>undefined\<close>: only a non-empty string is truthy.\<close>

fun truthy :: "js_string option \<Rightarrow> bool" where
  "truthy None = False"
| "truthy (Some s) = (s \<noteq> [])"

text \<open>
  Reading \<open>xs[i]\<close> gives \<open>undefined\<close> past the end; writing \<open>xs[i] = v\<close> past the end
  extends the array, leaving holes in between.
\<close>

definition js_get :: "'a option list \<Rightarrow> nat \<Rightarrow> 'a option" where
  "js_get xs i = (if i < length xs then xs ! i else None)"

definition js_set :: "'a option list \<Rightarrow> nat \<Rightarrow> 'a option \<Rightarrow> 'a option list" where
  "js_set xs i v =
     (if i < length xs then xs[i := v] else xs @ replicate (i - length xs) None @ [v])"

text \<open>\<open>xs.join("")\<close>: an \<open>undefined\<close> element contributes the empty string.\<close>

definition join :: "js_string option list \<Rightarrow> js_string" where
  "join xs = concat (map (\<lambda>c. case c of None \<Rightarrow> [] | Some s \<Rightarrow> s) xs)"

text \<open>\<open>xs.findIndex((value, index) => ...)\<close>: the first index that satisfies the test, or -1.\<close>

fun findIndex_from :: "('a \<Rightarrow> nat \<Rightarrow> bool) \<Rightarrow> 'a list \<Rightarrow> nat \<Rightarrow> int" where
  "findIndex_from P [] k = - 1"
| "findIndex_from P (x # xs) k = (if P x k then int k else findIndex_from P xs (Suc k))"

definition findIndex :: "('a \<Rightarrow> nat \<Rightarrow> bool) \<Rightarrow> 'a list \<Rightarrow> int" where
  "findIndex P xs = findIndex_from P xs 0"

text \<open>
  \<open>new Array(len)\<close> with a number throws a RangeError unless \<open>len\<close> is an integer in
  \<open>[0, 2^32 - 1]\<close>; otherwise it is an array of \<open>len\<close> holes. \<open>.fill(v)\<close> sets every slot.
\<close>

datatype js_error = RangeError

definition is_integer :: "js_number \<Rightarrow> bool" where
  "is_integer x \<longleftrightarrow> of_int \<lfloor>x\<rfloor> = x"

definition new_Array :: "js_number \<Rightarrow> js_error + 'a option list" where
  "new_Array len =
     (if is_integer len \<and> 0 \<le> len \<and> len < 2 ^ 32
      then Inr (replicate (nat \<lfloor>len\<rfloor>) None) else Inl RangeError)"

definition fill :: "'a \<Rightarrow> 'a option list \<Rightarrow> 'a option list" where
  "fill v xs = map (\<lambda>_. Some v) xs"

text \<open>
  \<open>xs.slice(0, end)\<close>: \<open>end\<close> is truncated towards zero; a negative end counts from the
  end of the array.
\<close>

definition to_integer :: "js_number \<Rightarrow> int" where
  "to_integer x = (if 0 \<le> x then \<lfloor>x\<rfloor> else \<lceil>x\<rceil>)"

definition slice0 :: "'a list \<Rightarrow> js_number \<Rightarrow> 'a list" where
  "slice0 xs e =
     (let r = to_integer e
      in if r < 0 then take (nat (int (length xs) + r)) xs else take (nat r) xs)"

section \<open>Props, state and effects of the component\<close>

datatype InputType = Default | Otp | Split

datatype AutoCapitalize = Cap_none | Cap_sentences | Cap_words | Cap_characters

text \<open>
  \<open>SplitField\<close>. \<open>KeyboardTypeOptions\<close> is declared by the host framework and is the type
  parameter \<open>'kb\<close>; each of its values is a non-empty string literal, so it is truthy.
  The fields \<open>placeholder\<close>, \<open>value\<close> and \<open>flex\<close> play no part below and are left out.
\<close>

record 'kb SplitField =
  key :: js_string
  field_keyboardType :: "'kb option"
  field_autoCapitalize :: "AutoCapitalize option"
  field_maxLength :: "js_number option"
  field_secureTextEntry :: "bool option"
  field_editable :: "bool option"

text \<open>
  \<open>CustomTextInputProps\<close> after destructuring with its defaults. \<open>ViewStyle\<close> and
  \<open>TextStyle\<close> are the host framework's, the type parameters \<open>'vs\<close> and \<open>'ts\<close>. A callback
  prop is a flag saying whether the caller supplied it; its invocation is an effect.
\<close>

record ('kb, 'vs, 'ts) props =
  secureTextEntry :: bool
  keyboardType :: 'kb
  autoCapitalize :: AutoCapitalize
  editable :: bool
  maxLength :: "js_number option"
  error :: "js_string option"
  type :: InputType
  otpLength :: js_number
  otpValue :: js_string
  onOtpChange :: bool
  otpAutoFocus :: bool
  splitFields :: "'kb SplitField list"
  splitValues :: "js_string \<rightharpoonup> js_string"
  onSplitChange :: bool
  inputContainerStyle :: "'vs option"
  inputStyle :: "'ts option"
  focusedInputContainerStyle :: "'vs option"
  focusedInputStyle :: "'ts option"
  disabledInputContainerStyle :: "'vs option"
  disabledInputStyle :: "'ts option"
  otpInputContainerStyle :: "'vs option"
  otpInputStyle :: "'ts option"
  otpFocusedInputContainerStyle :: "'vs option"
  otpFocusedInputStyle :: "'ts option"
  splitInputContainerStyle :: "'vs option"
  splitInputStyle :: "'ts option"
  splitFocusedInputContainerStyle :: "'vs option"
  splitFocusedInputStyle :: "'ts option"

text \<open>
  The hooks of one instance: the \<open>useState\<close> cells and the \<open>otpRefs\<close> array kept by
  \<open>useRef\<close>. A ref object made by \<open>React.createRef()\<close> is a fresh number; \<open>nextRef\<close> is the
  next unused one.
\<close>

record state =
  isFocused :: bool
  otpValues :: "js_string option list"
  otpFocusedIndex :: int
  splitFocusedKey :: js_string
  otpRefs :: "nat list"
  nextRef :: nat

text \<open>One constructor for each \<open>console.warn\<close> of the file.\<close>

datatype warning =
  OtpLengthInvalid js_number
| OtpValueTooLong js_number js_string
| SplitKeysNotUnique
| SplitFieldsInvalid
| InvalidOtpIndex int
| InvalidPasteIndex int
| InvalidKeyPressIndex int
| InvalidSplitKey js_string

text \<open>
  \<open>RefFocus k\<close> is the call \<open>otpRefs.current[k]?.current?.focus()\<close> and \<open>RefBlur k\<close> the same
  with \<open>blur()\<close>: a request to the host's field in slot \<open>k\<close>, which does nothing when the slot
  holds no mounted field.
\<close>

datatype ref_call = RefFocus int | RefBlur int

datatype effect =
  Warn warning
| OtpChange js_string
| SplitChange "js_string \<rightharpoonup> js_string" js_string js_string
| Call ref_call
| SetTimeout nat ref_call

section \<open>OTP handlers\<close>

text \<open>
  The loop of \<open>handleOtpPaste\<close>, with its variables \<open>i\<close>, \<open>newValues\<close> and
  \<open>nextFocusIndex\<close>. Inside the loop \<open>i < cleanedText.length\<close>, so \<open>char\<close> is defined.
\<close>

function paste_loop ::
  "js_string \<Rightarrow> nat \<Rightarrow> js_number \<Rightarrow> nat \<Rightarrow> js_string option list \<Rightarrow> nat
     \<Rightarrow> js_string option list \<times> nat" where
  "paste_loop cleanedText currentIndex len i newValues nextFocusIndex =
     (if i < length cleanedText \<and> of_nat (currentIndex + i) < len
      then paste_loop cleanedText currentIndex len (Suc i)
             (js_set newValues (currentIndex + i) (Some [cleanedText ! i])) (currentIndex + i)
      else (newValues, nextFocusIndex))"
  by pat_completeness auto
termination
  by (relation "measure (\<lambda>(s, c, l, i, v, n). length s - i)") auto

definition handleOtpPaste ::
  "('kb, 'vs, 'ts) props \<Rightarrow> state \<Rightarrow> js_string \<Rightarrow> int \<Rightarrow> state \<times> effect list" where
  "handleOtpPaste p st pastedText currentIndex =
     (if currentIndex < 0 \<or> otpLength p \<le> of_int currentIndex
      then (st, [Warn (InvalidPasteIndex currentIndex)])
      else
        let cleanedText = remove_spaces pastedText
        in if cleanedText = [] then (st, [])
           else
             let (newValues, nextFocusIndex) =
                   paste_loop cleanedText (nat currentIndex) (otpLength p) 0 (otpValues st)
                     (nat currentIndex);
                 nextEmptyIndex =
                   findIndex (\<lambda>v index. \<not> truthy v \<and> index > nextFocusIndex) newValues
             in (st\<lparr>otpValues := newValues\<rparr>,
                 (if onOtpChange p then [OtpChange (join newValues)] else []) @
                 (if nextEmptyIndex \<noteq> - 1 then [SetTimeout 50 (RefFocus nextEmptyIndex)]
                  else if of_nat (nextFocusIndex + 1) < otpLength p
                  then [SetTimeout 50 (RefFocus (int nextFocusIndex + 1))]
                  else [SetTimeout 50 (RefBlur (int nextFocusIndex))])))"

definition handleOtpChange ::
  "('kb, 'vs, 'ts) props \<Rightarrow> state \<Rightarrow> js_string \<Rightarrow> int \<Rightarrow> state \<times> effect list" where
  "handleOtpChange p st text index =
     (if index < 0 \<or> otpLength p \<le> of_int index
      then (st, [Warn (InvalidOtpIndex index)])
      else if length text > 1 then handleOtpPaste p st text index
      else
        let newValues = js_set (otpValues st) (nat index) (Some text)
        in (st\<lparr>otpValues := newValues\<rparr>,
            (if onOtpChange p then [OtpChange (join newValues)] else []) @
            (if text \<noteq> [] \<and> of_int index < otpLength p - 1
             then [Call (RefFocus (index + 1))] else [])))"

text \<open>The key name \<open>"Backspace"\<close>.\<close>

definition Backspace :: js_string where
  "Backspace = [0x42, 0x61, 0x63, 0x6B, 0x73, 0x70, 0x61, 0x63, 0x65]"

definition handleOtpKeyPress ::
  "('kb, 'vs, 'ts) props \<Rightarrow> state \<Rightarrow> js_string \<Rightarrow> int \<Rightarrow> state \<times> effect list" where
  "handleOtpKeyPress p st event_key index =
     (if index < 0 \<or> otpLength p \<le> of_int index
      then (st, [Warn (InvalidKeyPressIndex index)])
      else if event_key = Backspace
      then (if \<not> truthy (js_get (otpValues st) (nat index)) \<and> index > 0
            then (st, [Call (RefFocus (index - 1))]) else (st, []))
      else (st, []))"

definition handleOtpFocus ::
  "('kb, 'vs, 'ts) props \<Rightarrow> state \<Rightarrow> int \<Rightarrow> state \<times> effect list" where
  "handleOtpFocus p st index =
     (if index \<ge> 0 \<and> of_int index < otpLength p
      then (st\<lparr>otpFocusedIndex := index\<rparr>, []) else (st, []))"

definition handleOtpBlur :: "state \<Rightarrow> state \<times> effect list" where
  "handleOtpBlur st = (st\<lparr>otpFocusedIndex := - 1\<rparr>, [])"

section \<open>Split handlers and the props of one split field\<close>

definition handleSplitChange ::
  "('kb, 'vs, 'ts) props \<Rightarrow> state \<Rightarrow> js_string \<Rightarrow> js_string \<Rightarrow> state \<times> effect list" where
  "handleSplitChange p st k text =
     (case find (\<lambda>field. key field = k) (splitFields p) of
        None \<Rightarrow> (st, [Warn (InvalidSplitKey k)])
      | Some _ \<Rightarrow>
          let newValues = (splitValues p)(k \<mapsto> text)
          in (st, if onSplitChange p then [SplitChange newValues k text] else []))"

definition handleSplitFocus :: "state \<Rightarrow> js_string \<Rightarrow> state \<times> effect list" where
  "handleSplitFocus st k = (st\<lparr>splitFocusedKey := k\<rparr>, [])"

definition handleSplitBlur :: "state \<Rightarrow> state \<times> effect list" where
  "handleSplitBlur st = (st\<lparr>splitFocusedKey := []\<rparr>, [])"

text \<open>
  The props that \<open>renderSplitInputs\<close> gives the field of one descriptor. \<open>a || b\<close> with an
  optional \<open>a\<close> whose values are all truthy is \<open>a\<close> when set and \<open>b\<close> otherwise; with an
  optional boolean \<open>a\<close> it is true when \<open>a\<close> is true and \<open>b\<close> otherwise. The spread
  \<open>{...otherProps}\<close> that follows cannot replace any of them: all five names are
  destructured out of \<open>otherProps\<close>. The \<open>value\<close> prop, \<open>splitValues[field.key] || ""\<close>, is
  left out: it reads the caller's object through its prototype chain, which the map of
  own properties does not record.
\<close>

record 'kb SplitTextInput =
  input_keyboardType :: 'kb
  input_autoCapitalize :: AutoCapitalize
  input_maxLength :: "js_number option"
  input_secureTextEntry :: bool
  input_editable :: bool

definition or_else :: "'a option \<Rightarrow> 'a \<Rightarrow> 'a" where
  "or_else a b = (case a of Some x \<Rightarrow> x | None \<Rightarrow> b)"

definition or_bool :: "bool option \<Rightarrow> bool \<Rightarrow> bool" where
  "or_bool a b = (case a of Some True \<Rightarrow> True | _ \<Rightarrow> b)"

definition renderSplitInput ::
  "('kb, 'vs, 'ts) props \<Rightarrow> 'kb SplitField \<Rightarrow> 'kb SplitTextInput" where
  "renderSplitInput p field =
     \<lparr>input_keyboardType = or_else (field_keyboardType field) (keyboardType p),
      input_autoCapitalize = or_else (field_autoCapitalize field) (autoCapitalize p),
      input_maxLength = field_maxLength field,
      input_secureTextEntry = or_bool (field_secureTextEntry field) (secureTextEntry p),
      input_editable =
        (case field_editable field of Some e \<Rightarrow> e | None \<Rightarrow> editable p)\<rparr>"

definition renderSplitInputs ::
  "('kb, 'vs, 'ts) props \<Rightarrow> 'kb SplitTextInput list" where
  "renderSplitInputs p = map (renderSplitInput p) (splitFields p)"

section \<open>Style resolution\<close>











section \<open>Validation, the component function and its effects\<close>

definition validateOtpLength :: "js_number \<Rightarrow> bool" where
  "validateOtpLength len \<longleftrightarrow> is_integer len \<and> 1 \<le> len \<and> len \<le> 20"

definition validateOtpValue :: "js_string \<Rightarrow> js_number \<Rightarrow> bool" where
  "validateOtpValue v maxLen \<longleftrightarrow> of_nat (length v) \<le> maxLen"

text \<open>The result of \<open>validateSplitFields\<close> and what it logs itself.\<close>

definition validateSplitFields :: "'kb SplitField list \<Rightarrow> bool \<times> effect list" where
  "validateSplitFields fs =
     (if fs = [] then (False, [])
      else
        let keys = map key fs
        in if length keys \<noteq> length (remdups keys) then (False, [Warn SplitKeysNotUnique])
           else (list_all (\<lambda>field. key field \<noteq> [] \<and> length (trim (key field)) > 0) fs,
                 []))"

text \<open>The first \<open>useEffect\<close>: validation on mount and on a change of the props it names.\<close>

definition validation_effect :: "('kb, 'vs, 'ts) props \<Rightarrow> effect list" where
  "validation_effect p =
     (if type p = Otp
      then (if \<not> validateOtpLength (otpLength p) then [Warn (OtpLengthInvalid (otpLength p))]
            else []) @
           (if otpValue p \<noteq> [] \<and> \<not> validateOtpValue (otpValue p) (otpLength p)
            then [Warn (OtpValueTooLong (otpLength p) (otpValue p))] else [])
      else []) @
     (if type p = Split
      then (let (ok, logged) = validateSplitFields (splitFields p)
            in logged @ (if \<not> ok then [Warn SplitFieldsInvalid] else []))
      else [])"

text \<open>
  The second \<open>useEffect\<close>, which runs on mount and when \<open>otpLength\<close>, \<open>type\<close> or \<open>otpValue\<close>
  changes. Its first loop starts at \<open>i = otpRefs.current.length\<close>, so each assignment
  appends one fresh ref.
\<close>

function create_refs :: "js_number \<Rightarrow> nat \<Rightarrow> nat list \<Rightarrow> nat \<Rightarrow> nat list \<times> nat" where
  "create_refs len i refs fresh =
     (if of_nat i < len then create_refs len (Suc i) (refs @ [fresh]) (Suc fresh)
      else (refs, fresh))"
  by pat_completeness auto
termination
proof (relation "measure (\<lambda>(len, i, refs, fresh). nat \<lceil>len\<rceil> - i)")
  show "wf (measure (\<lambda>(len, i, refs, fresh). nat \<lceil>len\<rceil> - i))"
    by simp
next
  fix len :: js_number and i :: nat and refs :: "nat list" and fresh :: nat
  assume "of_nat i < len"
  then have "int i < \<lceil>len\<rceil>"
    by (simp add: less_ceiling_iff)
  then show "((len, Suc i, refs @ [fresh], Suc fresh), (len, i, refs, fresh))
      \<in> measure (\<lambda>(len, i, refs, fresh). nat \<lceil>len\<rceil> - i)"
    by simp
qed

text \<open>
  Its second loop: \<open>newValues[i] = otpValue[i] || ""\<close> for every index of the seed; a
  string of one code unit is truthy.
\<close>

definition seed_values :: "js_string \<Rightarrow> js_string option list \<Rightarrow> js_string option list" where
  "seed_values v newValues =
     fold (\<lambda>i vs. js_set vs i (Some [v ! i])) [0..<length v] newValues"

definition otp_init_effect :: "('kb, 'vs, 'ts) props \<Rightarrow> state \<Rightarrow> js_error + state" where
  "otp_init_effect p st =
     (if type p = Otp
      then
        let sliced = slice0 (otpRefs st) (otpLength p);
            (refs, fresh) = create_refs (otpLength p) (length sliced) sliced (nextRef st);
            st1 = st\<lparr>otpRefs := refs, nextRef := fresh\<rparr>
        in if otpValue p \<noteq> [] \<and> of_nat (length (otpValue p)) \<le> otpLength p
           then (case new_Array (otpLength p) of
                   Inl e \<Rightarrow> Inl e
                 | Inr a \<Rightarrow> Inr (st1\<lparr>otpValues := seed_values (otpValue p) (fill [] a)\<rparr>))
           else Inr st1
      else Inr st)"

text \<open>
  The component function up to its hooks. The argument of \<open>useState\<close> is evaluated at every
  render, and kept at the first one only. The view it returns is not modelled.
\<close>

definition CustomTextInput ::
  "('kb, 'vs, 'ts) props \<Rightarrow> state option \<Rightarrow> js_error + state" where
  "CustomTextInput p previous =
     (case new_Array (otpLength p) of
        Inl e \<Rightarrow> Inl e
      | Inr a \<Rightarrow>
          Inr (case previous of
                 Some st \<Rightarrow> st
               | None \<Rightarrow>
                   \<lparr>isFocused = False, otpValues = fill [] a,
                    otpFocusedIndex = (if otpAutoFocus p then 0 else - 1),
                    splitFocusedKey = [], otpRefs = [], nextRef = 0\<rparr>))"

text \<open>A render followed by the two effects above, in the order of the file.\<close>

definition render_and_commit ::
  "('kb, 'vs, 'ts) props \<Rightarrow> state option \<Rightarrow> js_error + state \<times> effect list" where
  "render_and_commit p previous =
     (case CustomTextInput p previous of
        Inl e \<Rightarrow> Inl e
      | Inr st \<Rightarrow>
          (case otp_init_effect p st of
             Inl e \<Rightarrow> Inl e
           | Inr st' \<Rightarrow> Inr (st', validation_effect p)))"

text \<open>The defaults of the destructuring, for a given default keyboard type.\<close>

definition default_props :: "'kb \<Rightarrow> ('kb, 'vs, 'ts) props" where
  "default_props kb =
     \<lparr>secureTextEntry = False, keyboardType = kb, autoCapitalize = Cap_none,
      editable = True, maxLength = None, error = None, type = Default, otpLength = 6,
      otpValue = [], onOtpChange = False, otpAutoFocus = True, splitFields = [],
      splitValues = Map.empty, onSplitChange = False,
      inputContainerStyle = None, inputStyle = None,
      focusedInputContainerStyle = None, focusedInputStyle = None,
      disabledInputContainerStyle = None, disabledInputStyle = None,
      otpInputContainerStyle = None, otpInputStyle = None,
      otpFocusedInputContainerStyle = None, otpFocusedInputStyle = None,
      splitInputContainerStyle = None, splitInputStyle = None,
      splitFocusedInputContainerStyle = None, splitFocusedInputStyle = None\<rparr>"

section \<open>Behaviour as the specification words it\<close>


text \<open>
  The specification's reading of the focus after a paste, over the \<open>L\<close> cells of the grid: the
  first empty cell above the last-written index, else the next cell if there is one, else
  the last cell is blurred. A cell past the end of the array shows as empty.
\<close>

definition spec_paste_focus :: "nat \<Rightarrow> js_string option list \<Rightarrow> nat \<Rightarrow> ref_call" where
  "spec_paste_focus L cells last_written =
     (case find (\<lambda>j. \<not> truthy (js_get cells j)) [Suc last_written..<L] of
        Some j \<Rightarrow> RefFocus (int j)
      | None \<Rightarrow>
          if last_written + 1 < L then RefFocus (int last_written + 1)
          else RefBlur (int last_written))"

text \<open>
  The specification's aggregate code: the values of the \<open>L\<close> cells of the grid, joined in
  order.
\<close>

definition spec_aggregate :: "nat \<Rightarrow> js_string option list \<Rightarrow> js_string" where
  "spec_aggregate L cells =
     concat (map (\<lambda>j. case js_get cells j of None \<Rightarrow> [] | Some s \<Rightarrow> s) [0..<L])"

section \<open>Auxiliary facts\<close>

declare paste_loop.simps [simp del]

lemma of_nat_le_of_int_rat: "(of_nat L :: rat) \<le> of_int i \<longleftrightarrow> int L \<le> i"
  by (metis of_int_of_nat_eq of_int_le_iff)

lemma of_int_less_of_nat_rat: "(of_int i :: rat) < of_nat L \<longleftrightarrow> i < int L"
  by (metis of_int_of_nat_eq of_int_less_iff)

lemma js_get_set: "js_get (js_set xs k v) j = (if j = k then v else js_get xs j)"
  by (auto simp: js_get_def js_set_def nth_append)

lemma length_js_set: "length (js_set xs k v) = max (length xs) (Suc k)"
  by (auto simp: js_set_def)


lemma paste_loop_snd:
  "snd (paste_loop S c (of_nat L) i vals nf) =
     (if i < length S \<and> c + i < L then min (c + length S) L - 1 else nf)"
proof (induction S c "of_nat L :: rat" i vals nf rule: paste_loop.induct)
  case (1 S c i vals nf)
  show ?case
  proof (cases "i < length S \<and> c + i < L")
    case True
    then have "paste_loop S c (of_nat L) i vals nf =
        paste_loop S c (of_nat L) (Suc i) (js_set vals (c + i) (Some [S ! i])) (c + i)"
      by (subst paste_loop.simps) simp
    moreover have "snd (paste_loop S c (of_nat L) (Suc i)
          (js_set vals (c + i) (Some [S ! i])) (c + i)) =
        (if Suc i < length S \<and> c + Suc i < L then min (c + length S) L - 1 else c + i)"
      using True by (intro "1.hyps") simp
    ultimately show ?thesis
      using True by (auto simp: min_def)
  next
    case False
    then have "paste_loop S c (of_nat L) i vals nf = (vals, nf)"
      by (subst paste_loop.simps) auto
    then show ?thesis using False by auto
  qed
qed

lemma paste_loop_length:
  "length (fst (paste_loop S c (of_nat L) i vals nf)) =
     (if i < length S \<and> c + i < L then max (length vals) (min (c + length S) L)
      else length vals)"
proof (induction S c "of_nat L :: rat" i vals nf rule: paste_loop.induct)
  case (1 S c i vals nf)
  show ?case
  proof (cases "i < length S \<and> c + i < L")
    case True
    then have "paste_loop S c (of_nat L) i vals nf =
        paste_loop S c (of_nat L) (Suc i) (js_set vals (c + i) (Some [S ! i])) (c + i)"
      by (subst paste_loop.simps) simp
    moreover have "length (fst (paste_loop S c (of_nat L) (Suc i)
          (js_set vals (c + i) (Some [S ! i])) (c + i))) =
        (if Suc i < length S \<and> c + Suc i < L
         then max (length (js_set vals (c + i) (Some [S ! i]))) (min (c + length S) L)
         else length (js_set vals (c + i) (Some [S ! i])))"
      using True by (intro "1.hyps") simp
    ultimately show ?thesis
      using True by (auto simp: length_js_set min_def max_def)
  next
    case False
    then have "paste_loop S c (of_nat L) i vals nf = (vals, nf)"
      by (subst paste_loop.simps) auto
    then show ?thesis using False by auto
  qed
qed


lemma handleOtpPaste_in_range:
  assumes "otpLength p = of_nat L" and "0 \<le> i" and "i < int L"
    and "remove_spaces P \<noteq> []"
  shows "handleOtpPaste p st P i =
    (let r = paste_loop (remove_spaces P) (nat i) (of_nat L) 0 (otpValues st) (nat i);
         e = findIndex (\<lambda>v index. \<not> truthy v \<and> index > snd r) (fst r)
     in (st\<lparr>otpValues := fst r\<rparr>,
         (if onOtpChange p then [OtpChange (join (fst r))] else []) @
         (if e \<noteq> - 1 then [SetTimeout 50 (RefFocus e)]
          else if snd r + 1 < L then [SetTimeout 50 (RefFocus (int (snd r) + 1))]
          else [SetTimeout 50 (RefBlur (int (snd r)))])))"
proof -
  have "\<not> (i < 0 \<or> otpLength p \<le> of_int i)"
    using assms by (simp add: of_nat_le_of_int_rat)
  moreover have "(of_nat (n + 1) < (of_nat L :: rat)) = (n + 1 < L)" for n
    by (simp only: of_nat_less_iff)
  ultimately show ?thesis
    using assms(1,4) by (simp add: handleOtpPaste_def Let_def case_prod_beta)
qed

lemma findIndex_from_none:
  "findIndex_from P xs k = - 1 \<longleftrightarrow> (\<forall>j<length xs. \<not> P (xs ! j) (k + j))"
proof (induction xs arbitrary: k)
  case Nil
  then show ?case by simp
next
  case (Cons x xs)
  have "(\<forall>j<Suc (length xs). \<not> P ((x # xs) ! j) (k + j)) \<longleftrightarrow>
      \<not> P x k \<and> (\<forall>j<length xs. \<not> P (xs ! j) (Suc k + j))"
    by (auto simp: less_Suc_eq_0_disj)
  with Cons show ?case by simp
qed

lemma findIndex_from_first:
  assumes "findIndex_from P xs k \<noteq> - 1"
  shows "\<exists>j<length xs. findIndex_from P xs k = int (k + j) \<and> P (xs ! j) (k + j) \<and>
      (\<forall>m<j. \<not> P (xs ! m) (k + m))"
  using assms
proof (induction xs arbitrary: k)
  case Nil
  then show ?case by simp
next
  case (Cons x xs)
  show ?case
  proof (cases "P x k")
    case True
    then have "findIndex_from P (x # xs) k = int (k + 0) \<and> P ((x # xs) ! 0) (k + 0) \<and>
        (\<forall>m<0. \<not> P ((x # xs) ! m) (k + m))"
      by simp
    then show ?thesis by blast
  next
    case False
    with Cons.prems have "findIndex_from P xs (Suc k) \<noteq> - 1" by simp
    from Cons.IH [OF this] obtain j where j: "j < length xs"
      "findIndex_from P xs (Suc k) = int (Suc k + j)" "P (xs ! j) (Suc k + j)"
      "\<forall>m<j. \<not> P (xs ! m) (Suc k + m)"
      by blast
    have "\<forall>m<Suc j. \<not> P ((x # xs) ! m) (k + m)"
      using False j(4) by (auto simp: less_Suc_eq_0_disj)
    with False j(1-3) have "Suc j < length (x # xs) \<and>
        findIndex_from P (x # xs) k = int (k + Suc j) \<and>
        P ((x # xs) ! Suc j) (k + Suc j) \<and> (\<forall>m<Suc j. \<not> P ((x # xs) ! m) (k + m))"
      by simp
    then show ?thesis by blast
  qed
qed

lemma in_range_iff:
  "otpLength p = of_nat L \<Longrightarrow> (i < 0 \<or> otpLength p \<le> of_int i) \<longleftrightarrow> \<not> (0 \<le> i \<and> i < int L)"
  by (auto simp: of_nat_le_of_int_rat)

lemma handleOtpPaste_no_call: "Call c \<notin> set (snd (handleOtpPaste p st P i))"
  by (simp add: handleOtpPaste_def Let_def case_prod_beta)

declare create_refs.simps [simp del]


lemma create_refs_of_nat:
  "create_refs (of_nat L) i refs fresh =
     (refs @ map (\<lambda>k. fresh + k) [0..<L - i], fresh + (L - i))"
proof (induction "L - i" arbitrary: i refs fresh)
  case 0
  then have "\<not> (of_nat i :: rat) < of_nat L" by simp
  then have "create_refs (of_nat L) i refs fresh = (refs, fresh)"
    by (subst create_refs.simps) simp
  with 0 show ?case by simp
next
  case (Suc n)
  then have lt: "i < L" and n: "n = L - Suc i" by simp_all
  have "create_refs (of_nat L) i refs fresh =
      create_refs (of_nat L) (Suc i) (refs @ [fresh]) (Suc fresh)"
    using lt by (subst create_refs.simps) simp
  also have "\<dots> = ((refs @ [fresh]) @ map (\<lambda>k. Suc fresh + k) [0..<L - Suc i],
      Suc fresh + (L - Suc i))"
    using n by (rule Suc.hyps(1))
  also have "map (\<lambda>k. Suc fresh + k) [0..<L - Suc i] = map (\<lambda>k. fresh + k) [1..<Suc (L - Suc i)]"
    by (simp add: map_Suc_upt [symmetric] del: upt_Suc)
  finally have "create_refs (of_nat L) i refs fresh =
      (refs @ fresh # map (\<lambda>k. fresh + k) [1..<Suc (L - Suc i)], Suc fresh + (L - Suc i))"
    by simp
  moreover have "Suc (L - Suc i) = L - i" using lt by simp
  moreover have "[0..<L - i] = 0 # [1..<L - i]" using lt by (simp add: upt_rec [of 0])
  ultimately show ?case using lt by simp
qed





lemma CustomTextInput_throws_iff:
  "CustomTextInput p previous = Inl RangeError \<longleftrightarrow>
     \<not> (is_integer (otpLength p) \<and> 0 \<le> otpLength p \<and> otpLength p < 2 ^ 32)"
  by (simp add: CustomTextInput_def new_Array_def)

lemma render_and_commit_throws_iff:
  "(\<exists>e. render_and_commit p previous = Inl e) \<longleftrightarrow>
     \<not> (is_integer (otpLength p) \<and> 0 \<le> otpLength p \<and> otpLength p < 2 ^ 32)"
  by (auto simp: render_and_commit_def CustomTextInput_def otp_init_effect_def new_Array_def
      Let_def case_prod_beta split: sum.splits option.splits)

lemma out_of_range_warns:
  assumes "i < 0 \<or> otpLength p \<le> of_int i"
  shows "handleOtpChange p st t i = (st, [Warn (InvalidOtpIndex i)])"
    and "handleOtpPaste p st t i = (st, [Warn (InvalidPasteIndex i)])"
    and "handleOtpKeyPress p st k i = (st, [Warn (InvalidKeyPressIndex i)])"
  using assms by (simp_all add: handleOtpChange_def handleOtpPaste_def handleOtpKeyPress_def)

lemma handleOtpFocus_out_of_range:
  assumes "i < 0 \<or> otpLength p \<le> of_int i"
  shows "handleOtpFocus p st i = (st, [])"
  using assms by (auto simp: handleOtpFocus_def)

lemma zero_and_long_lengths_warn:
  "render_and_commit
     ((default_props (0::nat) :: (nat, nat, nat) props)\<lparr>type := Otp, otpLength := 0\<rparr>)
     None =
     Inr (\<lparr>isFocused = False, otpValues = [], otpFocusedIndex = 0, splitFocusedKey = [],
           otpRefs = [], nextRef = 0\<rparr>, [Warn (OtpLengthInvalid 0)])"
  "snd (projr (render_and_commit
     ((default_props (0::nat) :: (nat, nat, nat) props)\<lparr>type := Otp, otpLength := 21\<rparr>)
     None)) = [Warn (OtpLengthInvalid 21)]"
  by (simp_all add: render_and_commit_def CustomTextInput_def otp_init_effect_def new_Array_def
      is_integer_def validation_effect_def validateOtpLength_def default_props_def fill_def
      slice0_def to_integer_def create_refs_of_nat [of 0, simplified]
      create_refs_of_nat [of 21, simplified])

lemma long_seed_warns:
  "render_and_commit
     ((default_props (0::nat) :: (nat, nat, nat) props)
        \<lparr>type := Otp, otpLength := 2, otpValue := [0x31, 0x32, 0x33]\<rparr>)
     None =
     Inr (\<lparr>isFocused = False, otpValues = [Some [], Some []], otpFocusedIndex = 0,
           splitFocusedKey = [], otpRefs = [0, 1], nextRef = 2\<rparr>,
          [Warn (OtpValueTooLong 2 [0x31, 0x32, 0x33])])"
  by (simp add: render_and_commit_def CustomTextInput_def otp_init_effect_def new_Array_def
      is_integer_def validation_effect_def validateOtpLength_def validateOtpValue_def
      default_props_def fill_def slice0_def to_integer_def create_refs.simps numeral_2_eq_2)

lemma split_descriptor_warnings:
  "validation_effect
     ((default_props (0::nat) :: (nat, nat, nat) props)\<lparr>type := Split\<rparr>) =
     [Warn SplitFieldsInvalid]"
  "validation_effect
     ((default_props (0::nat) :: (nat, nat, nat) props)
        \<lparr>type := Split,
         splitFields :=
           [\<lparr>key = [0x6D], field_keyboardType = None, field_autoCapitalize = None,
             field_maxLength = None, field_secureTextEntry = None, field_editable = None\<rparr>,
            \<lparr>key = [0x6D], field_keyboardType = None, field_autoCapitalize = None,
             field_maxLength = None, field_secureTextEntry = None, field_editable = None\<rparr>]\<rparr>) =
     [Warn SplitKeysNotUnique, Warn SplitFieldsInvalid]"
  "validation_effect
     ((default_props (0::nat) :: (nat, nat, nat) props)
        \<lparr>type := Split,
         splitFields :=
           [\<lparr>key = [0x20], field_keyboardType = None, field_autoCapitalize = None,
             field_maxLength = None, field_secureTextEntry = None, field_editable = None\<rparr>]\<rparr>) =
     [Warn SplitFieldsInvalid]"
  by (simp_all add: validation_effect_def validateSplitFields_def default_props_def trim_def
      is_space_def)

lemma split_secure_false_not_used:
  "field_secureTextEntry f = Some False \<Longrightarrow> secureTextEntry p \<Longrightarrow>
   input_secureTextEntry (renderSplitInput p f)"
  by (simp add: renderSplitInput_def or_bool_def)

lemma paste_focus_entries:
  assumes "otpLength p = of_nat L" and "0 \<le> i" and "i < int L"
    and "remove_spaces P \<noteq> []"
  shows "let cells = otpValues (fst (handleOtpPaste p st P i));
             last_written = min (nat i + length (remove_spaces P)) L - 1
         in \<exists>target.
              snd (handleOtpPaste p st P i) =
                (if onOtpChange p then [OtpChange (join cells)] else []) @
                [SetTimeout 50 target] \<and>
              (\<forall>j. last_written < j \<and> j < length cells \<and> \<not> truthy (cells ! j) \<and>
                   (\<forall>m. last_written < m \<and> m < j \<longrightarrow> truthy (cells ! m)) \<longrightarrow>
                   target = RefFocus (int j)) \<and>
              ((\<forall>j. last_written < j \<and> j < length cells \<longrightarrow> truthy (cells ! j)) \<longrightarrow>
                 (last_written + 1 < L \<longrightarrow> target = RefFocus (int last_written + 1)) \<and>
                 (\<not> last_written + 1 < L \<longrightarrow> target = RefBlur (int last_written)))"
proof -
  let ?S = "remove_spaces P"
  let ?r = "paste_loop ?S (nat i) (of_nat L) 0 (otpValues st) (nat i)"
  let ?Q = "\<lambda>v index. \<not> truthy v \<and> index > snd ?r"
  let ?e = "findIndex ?Q (fst ?r)"
  let ?t = "if ?e \<noteq> - 1 then RefFocus ?e
            else if snd ?r + 1 < L then RefFocus (int (snd ?r) + 1)
            else RefBlur (int (snd ?r))"
  have h: "handleOtpPaste p st P i =
    (st\<lparr>otpValues := fst ?r\<rparr>,
     (if onOtpChange p then [OtpChange (join (fst ?r))] else []) @ [SetTimeout 50 ?t])"
    using handleOtpPaste_in_range [OF assms, of st] by (simp add: Let_def)
  have lw: "snd ?r = min (nat i + length ?S) L - 1"
    using assms(2-4) by (simp add: paste_loop_snd)
  have first: "?t = RefFocus (int j)"
    if j: "snd ?r < j" "j < length (fst ?r)" "\<not> truthy (fst ?r ! j)"
      "\<forall>m. snd ?r < m \<and> m < j \<longrightarrow> truthy (fst ?r ! m)" for j
  proof -
    have "?e \<noteq> - 1"
      using j(1-3) by (auto simp: findIndex_def findIndex_from_none)
    moreover from this obtain j0 where j0: "j0 < length (fst ?r)" "?e = int j0"
      "\<not> truthy (fst ?r ! j0)" "snd ?r < j0"
      "\<forall>m<j0. \<not> (\<not> truthy (fst ?r ! m) \<and> snd ?r < m)"
      using findIndex_from_first [of ?Q "fst ?r" 0] by (auto simp: findIndex_def)
    have "j0 = j"
    proof (rule ccontr)
      assume "j0 \<noteq> j"
      then consider "j0 < j" | "j < j0" by linarith
      then show False
      proof cases
        case 1
        with j(4) j0(3,4) show False by blast
      next
        case 2
        with j0(5) j(1,3) show False by blast
      qed
    qed
    ultimately show ?thesis using j0(2) by simp
  qed
  have none: "?e = - 1"
    if "\<forall>j. snd ?r < j \<and> j < length (fst ?r) \<longrightarrow> truthy (fst ?r ! j)"
    using that by (auto simp: findIndex_def findIndex_from_none)
  show ?thesis
    unfolding Let_def
  proof (intro exI [of _ ?t] conjI allI impI)
    show "snd (handleOtpPaste p st P i) =
        (if onOtpChange p then [OtpChange (join (otpValues (fst (handleOtpPaste p st P i))))]
         else []) @ [SetTimeout 50 ?t]"
      by (simp add: h)
  next
    fix j
    assume "min (nat i + length ?S) L - 1 < j \<and>
        j < length (otpValues (fst (handleOtpPaste p st P i))) \<and>
        \<not> truthy (otpValues (fst (handleOtpPaste p st P i)) ! j) \<and>
        (\<forall>m. min (nat i + length ?S) L - 1 < m \<and> m < j \<longrightarrow>
             truthy (otpValues (fst (handleOtpPaste p st P i)) ! m))"
    then show "?t = RefFocus (int j)"
      using first [of j] by (simp add: h lw)
  next
    assume a: "\<forall>j. min (nat i + length ?S) L - 1 < j \<and>
        j < length (otpValues (fst (handleOtpPaste p st P i))) \<longrightarrow>
        truthy (otpValues (fst (handleOtpPaste p st P i)) ! j)"
    then have e: "?e = - 1"
      using none by (simp add: h lw)
    have t: "?t = (if snd ?r + 1 < L then RefFocus (int (snd ?r) + 1)
                   else RefBlur (int (snd ?r)))"
      using e by simp
    show "?t = RefFocus (int (min (nat i + length ?S) L - 1) + 1)"
      if c: "min (nat i + length ?S) L - 1 + 1 < L"
    proof -
      from c have "snd ?r + 1 < L" unfolding lw .
      with t have "?t = RefFocus (int (snd ?r) + 1)" by (simp only: if_True)
      then show ?thesis by (simp only: lw)
    qed
    show "?t = RefBlur (int (min (nat i + length ?S) L - 1))"
      if c: "\<not> min (nat i + length ?S) L - 1 + 1 < L"
    proof -
      from c have "\<not> snd ?r + 1 < L" unfolding lw .
      with t have "?t = RefBlur (int (snd ?r))" by (simp only: if_False)
      then show ?thesis by (simp only: lw)
    qed
  qed
qed

lemma find_upt_None:
  "find P [a..<b] = None \<longleftrightarrow> (\<forall>j. a \<le> j \<and> j < b \<longrightarrow> \<not> P j)"
  by (auto simp: find_None_iff)

lemma find_upt_Some:
  assumes "find P [a..<b] = Some j"
  shows "a \<le> j \<and> j < b \<and> P j \<and> (\<forall>m. a \<le> m \<and> m < j \<longrightarrow> \<not> P m)"
proof -
  from assms obtain n where n: "n < length [a..<b]" "P ([a..<b] ! n)" "j = [a..<b] ! n"
    "\<forall>k<n. \<not> P ([a..<b] ! k)"
    unfolding find_Some_iff by blast
  from n(1) have nb: "a + n < b" by simp
  then have j: "j = a + n" using n(3) by simp
  have "\<not> P m" if "a \<le> m \<and> m < j" for m
  proof -
    from that j have k: "m - a < n" by arith
    with nb have "[a..<b] ! (m - a) = a + (m - a)" by simp
    with that have "[a..<b] ! (m - a) = m" by simp
    with n(4) k show ?thesis by metis
  qed
  with n(2) nb j show ?thesis by simp
qed

lemma handleOtpPaste_length:
  assumes "otpLength p = of_nat L" and "0 \<le> i" and "i < int L"
    and "remove_spaces P \<noteq> []" and "length (otpValues st) = L"
  shows "length (otpValues (fst (handleOtpPaste p st P i))) = L"
proof -
  have "otpValues (fst (handleOtpPaste p st P i)) =
      fst (paste_loop (remove_spaces P) (nat i) (of_nat L) 0 (otpValues st) (nat i))"
    using handleOtpPaste_in_range [OF assms(1-4), of st] by (simp add: Let_def)
  then show ?thesis
    using assms(2,3,5) by (simp add: paste_loop_length)
qed

lemma spec_aggregate_join:
  assumes "length cells \<le> L"
  shows "spec_aggregate L cells = concat (map (\<lambda>c. case c of None \<Rightarrow> [] | Some s \<Rightarrow> s) cells)"
proof -
  let ?g = "\<lambda>c :: js_string option. case c of None \<Rightarrow> [] | Some s \<Rightarrow> s"
  have "[0..<length cells + (L - length cells)] =
      [0..<length cells] @ [length cells..<length cells + (L - length cells)]"
    by (rule upt_add_eq_append) simp
  then have "[0..<L] = [0..<length cells] @ [length cells..<L]"
    using assms by simp
  then have "spec_aggregate L cells =
      concat (map (\<lambda>j. ?g (js_get cells j)) [0..<length cells]) @
      concat (map (\<lambda>j. ?g (js_get cells j)) [length cells..<L])"
    by (simp add: spec_aggregate_def)
  moreover have "map (\<lambda>j. ?g (js_get cells j)) [0..<length cells] = map ?g cells"
    by (rule nth_equalityI) (simp_all add: js_get_def)
  moreover have "concat (map (\<lambda>j. ?g (js_get cells j)) [length cells..<L]) = []"
    by (simp add: js_get_def)
  ultimately show ?thesis by simp
qed

section \<open>Paste distribution\<close>



text \<open>
  Claim C2, as amended. After a paste whose stripped text is not empty, exactly one
  deferred focus call is made, after the change callback, which gets the entries of the
  cell array joined. With \<open>last_written = min (i + K) L - 1\<close>: if some entry of the cell array
  above \<open>last_written\<close> is empty, the first such entry is focused; if none is, the cell
  \<open>last_written + 1\<close> is focused when that index is below \<open>L\<close>, and otherwise the cell
  \<open>last_written\<close> is blurred. When the cell array has the configured length \<open>L\<close>, its
  entries are the cells of the grid, the array keeps that length, and the target is the
  one the specification names.
\<close>

theorem paste_focus_target:
  assumes "otpLength p = of_nat L" and "0 \<le> i" and "i < int L"
    and "remove_spaces P \<noteq> []"
  shows "let cells = otpValues (fst (handleOtpPaste p st P i));
             last_written = min (nat i + length (remove_spaces P)) L - 1
         in \<exists>target.
              snd (handleOtpPaste p st P i) =
                (if onOtpChange p
                 then [OtpChange (concat (map (\<lambda>c. case c of None \<Rightarrow> [] | Some s \<Rightarrow> s) cells))]
                 else []) @
                [SetTimeout 50 target] \<and>
              (\<forall>j. last_written < j \<and> j < length cells \<and> \<not> truthy (cells ! j) \<and>
                   (\<forall>m. last_written < m \<and> m < j \<longrightarrow> truthy (cells ! m)) \<longrightarrow>
                   target = RefFocus (int j)) \<and>
              ((\<forall>j. last_written < j \<and> j < length cells \<longrightarrow> truthy (cells ! j)) \<longrightarrow>
                 (last_written + 1 < L \<longrightarrow> target = RefFocus (int last_written + 1)) \<and>
                 (\<not> last_written + 1 < L \<longrightarrow> target = RefBlur (int last_written))) \<and>
              (length (otpValues st) = L \<longrightarrow>
                 length cells = L \<and> target = spec_paste_focus L cells last_written)"
proof -
  define cells where "cells = otpValues (fst (handleOtpPaste p st P i))"
  define lw where "lw = min (nat i + length (remove_spaces P)) L - 1"
  from paste_focus_entries [OF assms, of st] obtain target where
    e: "snd (handleOtpPaste p st P i) =
        (if onOtpChange p then [OtpChange (join cells)] else []) @ [SetTimeout 50 target]"
    and first: "\<forall>j. lw < j \<and> j < length cells \<and> \<not> truthy (cells ! j) \<and>
        (\<forall>m. lw < m \<and> m < j \<longrightarrow> truthy (cells ! m)) \<longrightarrow> target = RefFocus (int j)"
    and none: "(\<forall>j. lw < j \<and> j < length cells \<longrightarrow> truthy (cells ! j)) \<longrightarrow>
        (lw + 1 < L \<longrightarrow> target = RefFocus (int lw + 1)) \<and>
        (\<not> lw + 1 < L \<longrightarrow> target = RefBlur (int lw))"
    unfolding Let_def cells_def lw_def by blast
  have e': "snd (handleOtpPaste p st P i) =
      (if onOtpChange p
       then [OtpChange (concat (map (\<lambda>c. case c of None \<Rightarrow> [] | Some s \<Rightarrow> s) cells))]
       else []) @ [SetTimeout 50 target]"
    using e by (simp add: join_def)
  have spec: "length cells = L \<and> target = spec_paste_focus L cells lw"
    if len: "length (otpValues st) = L"
  proof
    show l: "length cells = L"
      unfolding cells_def using assms len by (rule handleOtpPaste_length)
    show "target = spec_paste_focus L cells lw"
    proof (cases "find (\<lambda>j. \<not> truthy (js_get cells j)) [Suc lw..<L]")
      case None
      then have "\<forall>j. Suc lw \<le> j \<and> j < L \<longrightarrow> truthy (js_get cells j)"
        by (simp add: find_upt_None)
      then have "\<forall>j. lw < j \<and> j < length cells \<longrightarrow> truthy (cells ! j)"
        using l by (auto simp: js_get_def)
      with none have "target = (if lw + 1 < L then RefFocus (int lw + 1) else RefBlur (int lw))"
        by simp
      with None show ?thesis by (simp add: spec_paste_focus_def)
    next
      case (Some j)
      from find_upt_Some [OF Some] have j: "Suc lw \<le> j" "j < L" "\<not> truthy (js_get cells j)"
        "\<forall>m. Suc lw \<le> m \<and> m < j \<longrightarrow> truthy (js_get cells m)"
        by simp_all
      have "lw < j \<and> j < length cells \<and> \<not> truthy (cells ! j) \<and>
          (\<forall>m. lw < m \<and> m < j \<longrightarrow> truthy (cells ! m))"
        using j l by (auto simp: js_get_def)
      with first have "target = RefFocus (int j)" by blast
      with Some show ?thesis by (simp add: spec_paste_focus_def)
    qed
  qed
  show ?thesis
    unfolding Let_def cells_def [symmetric] lw_def [symmetric]
    using e' first none spec by blast
qed

theorem paste_focus_target_witness:
  "otpLength ((default_props (0::nat) :: (nat, nat, nat) props)
       \<lparr>type := Otp, otpLength := 4, onOtpChange := True\<rparr>) = of_nat 4 \<and>
   (0::int) \<le> 1 \<and> (1::int) < int 4 \<and>
   remove_spaces [0x35, 0x20, 0x36] \<noteq> [] \<and>
   length [Some [0x39], Some [], Some [], Some []] = (4::nat) \<and>
   snd (handleOtpPaste
     ((default_props (0::nat) :: (nat, nat, nat) props)
        \<lparr>type := Otp, otpLength := 4, onOtpChange := True\<rparr>)
     \<lparr>isFocused = False, otpValues = [Some [0x39], Some [], Some [], Some []],
      otpFocusedIndex = 1, splitFocusedKey = [], otpRefs = [0, 1, 2, 3], nextRef = 4\<rparr>
     [0x35, 0x20, 0x36] 1) =
     [OtpChange [0x39, 0x35, 0x36], SetTimeout 50 (RefFocus 3)]"
proof -
  let ?p = "(default_props (0::nat) :: (nat, nat, nat) props)
       \<lparr>type := Otp, otpLength := 4, onOtpChange := True\<rparr>"
  let ?st = "\<lparr>isFocused = False, otpValues = [Some [0x39], Some [], Some [], Some []],
      otpFocusedIndex = 1, splitFocusedKey = [], otpRefs = [0, 1, 2, 3], nextRef = 4\<rparr>"
  let ?P = "[0x35, 0x20, 0x36] :: js_string"
  let ?cells = "otpValues (fst (handleOtpPaste ?p ?st ?P 1))"
  have h1: "otpLength ?p = of_nat 4" by (simp add: default_props_def)
  have h2: "(0::int) \<le> 1" and h3: "(1::int) < int 4" by simp_all
  have S: "remove_spaces ?P = [0x35, 0x36]"
    by (simp add: remove_spaces_def is_space_def)
  then have h4: "remove_spaces ?P \<noteq> []" by simp
  have h5: "length (otpValues ?st) = 4" by simp
  have cells: "?cells = [Some [0x39], Some [0x35], Some [0x36], Some []]"
    by (simp add: handleOtpPaste_def default_props_def remove_spaces_def is_space_def
        paste_loop.simps js_set_def findIndex_def join_def)
  from paste_focus_target [OF h1 h2 h3 h4, of ?st] h5 obtain target where
    e: "snd (handleOtpPaste ?p ?st ?P 1) =
        (if onOtpChange ?p
         then [OtpChange (concat (map (\<lambda>c. case c of None \<Rightarrow> [] | Some s \<Rightarrow> s) ?cells))]
         else []) @ [SetTimeout 50 target]"
    and f: "target = spec_paste_focus 4 ?cells (min (nat 1 + length (remove_spaces ?P)) 4 - 1)"
    unfolding Let_def by blast
  have "spec_paste_focus 4 [Some [0x39], Some [0x35], Some [0x36], Some []]
      (min (nat 1 + length [0x35, 0x36 :: code_unit]) 4 - 1) = RefFocus 3"
    by (simp add: spec_paste_focus_def js_get_def upt_rec)
  with f have "target = RefFocus 3"
    unfolding cells S by simp
  with e have "snd (handleOtpPaste ?p ?st ?P 1) =
      [OtpChange [0x39, 0x35, 0x36], SetTimeout 50 (RefFocus 3)]"
    unfolding cells by (simp add: default_props_def)
  with h1 h2 h3 h4 show ?thesis by simp
qed

text \<open>
  The claim as stated fails when the cell array does not have the configured length,
  which it keeps from a larger or smaller earlier length. With \<open>L = 4\<close> and the array
  \<open>1, 2, 3, 4\<close> followed by two empty entries, the paste \<open>56\<close> at the index 2 asks for the
  focus of the index 4, which is no cell, where the last cell would be blurred. With
  \<open>L = 5\<close> and the array of two empty entries and \<open>x\<close>, the paste \<open>ab\<close> at the index 0 focuses
  the filled cell 2, where the empty cell 3 would be focused.
\<close>

theorem paste_focus_target_counterexample:
  "handleOtpPaste
     ((default_props (0::nat) :: (nat, nat, nat) props)
        \<lparr>type := Otp, otpLength := 4, onOtpChange := True\<rparr>)
     \<lparr>isFocused = False,
      otpValues = [Some [0x31], Some [0x32], Some [0x33], Some [0x34], Some [], Some []],
      otpFocusedIndex = 2, splitFocusedKey = [], otpRefs = [0, 1, 2, 3], nextRef = 6\<rparr>
     [0x35, 0x36] 2 =
     (\<lparr>isFocused = False,
       otpValues = [Some [0x31], Some [0x32], Some [0x35], Some [0x36], Some [], Some []],
       otpFocusedIndex = 2, splitFocusedKey = [], otpRefs = [0, 1, 2, 3], nextRef = 6\<rparr>,
      [OtpChange [0x31, 0x32, 0x35, 0x36], SetTimeout 50 (RefFocus 4)]) \<and>
   spec_paste_focus 4
     [Some [0x31], Some [0x32], Some [0x35], Some [0x36], Some [], Some []] 3 = RefBlur 3 \<and>
   handleOtpPaste
     ((default_props (0::nat) :: (nat, nat, nat) props)
        \<lparr>type := Otp, otpLength := 5, onOtpChange := True\<rparr>)
     \<lparr>isFocused = False, otpValues = [Some [], Some [], Some [0x78]],
      otpFocusedIndex = 0, splitFocusedKey = [], otpRefs = [0, 1, 2, 3, 4], nextRef = 5\<rparr>
     [0x61, 0x62] 0 =
     (\<lparr>isFocused = False, otpValues = [Some [0x61], Some [0x62], Some [0x78]],
       otpFocusedIndex = 0, splitFocusedKey = [], otpRefs = [0, 1, 2, 3, 4], nextRef = 5\<rparr>,
      [OtpChange [0x61, 0x62, 0x78], SetTimeout 50 (RefFocus 2)]) \<and>
   spec_paste_focus 5 [Some [0x61], Some [0x62], Some [0x78]] 1 = RefFocus 3"
  by (simp add: handleOtpPaste_def default_props_def remove_spaces_def is_space_def
      paste_loop.simps js_set_def js_get_def findIndex_def join_def spec_paste_focus_def
      upt_rec)

section \<open>Configuration errors\<close>

text \<open>
  Claim C3. A malformed configuration is to be logged and rendering is to go on, with no
  exception. For a length of zero or above 20, a seed that is too long and the malformed
  descriptor lists this is what happens (see \<open>zero_and_long_lengths_warn\<close>,
  \<open>long_seed_warns\<close> and \<open>split_descriptor_warnings\<close>). For a negative or a non-integer length it is not: the
  argument \<open>new Array(otpLength)\<close> of \<open>useState\<close> throws a RangeError in the render, before
  the validation effect, whose test \<open>validateOtpLength\<close> rejects these very lengths, can
  log anything. Evaluated at the lengths \<open>-1\<close> and \<open>5/2\<close>.
\<close>

theorem invalid_length_throws:
  "\<not> validateOtpLength (- 1) \<and>
   CustomTextInput
     ((default_props (0::nat) :: (nat, nat, nat) props)\<lparr>type := Otp, otpLength := - 1\<rparr>)
     None = Inl RangeError \<and>
   render_and_commit
     ((default_props (0::nat) :: (nat, nat, nat) props)\<lparr>type := Otp, otpLength := - 1\<rparr>)
     None = Inl RangeError \<and>
   \<not> validateOtpLength (5 / 2) \<and>
   CustomTextInput
     ((default_props (0::nat) :: (nat, nat, nat) props)\<lparr>type := Otp, otpLength := 5 / 2\<rparr>)
     None = Inl RangeError \<and>
   render_and_commit
     ((default_props (0::nat) :: (nat, nat, nat) props)\<lparr>type := Otp, otpLength := 5 / 2\<rparr>)
     None = Inl RangeError"
proof -
  have "\<lfloor>5 / 2 :: rat\<rfloor> = 2"
    by (rule floor_unique) simp_all
  then have "\<not> is_integer (5 / 2)"
    by (simp add: is_integer_def)
  moreover have "\<not> (0::rat) \<le> - 1"
    by simp
  ultimately show ?thesis
    by (simp add: validateOtpLength_def render_and_commit_def CustomTextInput_def
        new_Array_def default_props_def)
qed

section \<open>A change of the configured length\<close>




section \<open>Split edits\<close>

text \<open>
  Claim C5. An edit of a key that some descriptor carries leaves the state alone and, when
  the caller gave a change callback, invokes it exactly once with a map, the key and the
  text: the map holds the text at the key, agrees with the caller's map at every other
  key, and so has every key that was set before. An edit of a key that no descriptor
  carries leaves the state alone, invokes nothing and logs one warning.
\<close>

theorem split_edit_callback:
  "(k \<in> key ` set (splitFields p) \<longrightarrow>
      (onSplitChange p \<longrightarrow>
         (\<exists>m. handleSplitChange p st k text = (st, [SplitChange m k text]) \<and>
              m k = Some text \<and> (\<forall>k'. k' \<noteq> k \<longrightarrow> m k' = splitValues p k') \<and>
              dom (splitValues p) \<subseteq> dom m)) \<and>
      (\<not> onSplitChange p \<longrightarrow> handleSplitChange p st k text = (st, []))) \<and>
   (k \<notin> key ` set (splitFields p) \<longrightarrow>
      handleSplitChange p st k text = (st, [Warn (InvalidSplitKey k)]))"
proof -
  have none: "find (\<lambda>field. key field = k) (splitFields p) = None"
    if "k \<notin> key ` set (splitFields p)"
    using that by (auto simp: find_None_iff)
  have some: "\<exists>f. find (\<lambda>field. key field = k) (splitFields p) = Some f"
    if "k \<in> key ` set (splitFields p)"
  proof -
    from that have "find (\<lambda>field. key field = k) (splitFields p) \<noteq> None"
      by (auto simp: find_None_iff)
    then show ?thesis by blast
  qed
  show ?thesis
  proof (intro conjI impI)
    assume k: "k \<in> key ` set (splitFields p)"
    from some [OF k] obtain f where
      f: "find (\<lambda>field. key field = k) (splitFields p) = Some f" ..
    show "\<exists>m. handleSplitChange p st k text = (st, [SplitChange m k text]) \<and>
        m k = Some text \<and> (\<forall>k'. k' \<noteq> k \<longrightarrow> m k' = splitValues p k') \<and>
        dom (splitValues p) \<subseteq> dom m" if "onSplitChange p"
      using that f
      by (intro exI [of _ "(splitValues p)(k \<mapsto> text)"])
        (auto simp: handleSplitChange_def)
    show "handleSplitChange p st k text = (st, [])" if "\<not> onSplitChange p"
      using that f by (simp add: handleSplitChange_def)
  next
    assume "k \<notin> key ` set (splitFields p)"
    from none [OF this] show "handleSplitChange p st k text = (st, [Warn (InvalidSplitKey k)])"
      by (simp add: handleSplitChange_def)
  qed
qed

theorem split_edit_callback_witness:
  "[0x6D, 0x6D] \<in> key ` set (splitFields
      ((default_props (0::nat) :: (nat, nat, nat) props)
        \<lparr>type := Split, onSplitChange := True,
         splitFields :=
           [\<lparr>key = [0x6D, 0x6D], field_keyboardType = None, field_autoCapitalize = None,
             field_maxLength = None, field_secureTextEntry = None, field_editable = None\<rparr>,
            \<lparr>key = [0x64, 0x64], field_keyboardType = None, field_autoCapitalize = None,
             field_maxLength = None, field_secureTextEntry = None, field_editable = None\<rparr>],
         splitValues := Map.empty([0x64, 0x64] \<mapsto> [0x31, 0x35])\<rparr>)) \<and>
   (\<exists>m. handleSplitChange
      ((default_props (0::nat) :: (nat, nat, nat) props)
        \<lparr>type := Split, onSplitChange := True,
         splitFields :=
           [\<lparr>key = [0x6D, 0x6D], field_keyboardType = None, field_autoCapitalize = None,
             field_maxLength = None, field_secureTextEntry = None, field_editable = None\<rparr>,
            \<lparr>key = [0x64, 0x64], field_keyboardType = None, field_autoCapitalize = None,
             field_maxLength = None, field_secureTextEntry = None, field_editable = None\<rparr>],
         splitValues := Map.empty([0x64, 0x64] \<mapsto> [0x31, 0x35])\<rparr>)
      \<lparr>isFocused = False, otpValues = [], otpFocusedIndex = 0, splitFocusedKey = [],
       otpRefs = [], nextRef = 0\<rparr>
      [0x6D, 0x6D] [0x30, 0x37] =
      (\<lparr>isFocused = False, otpValues = [], otpFocusedIndex = 0, splitFocusedKey = [],
        otpRefs = [], nextRef = 0\<rparr>,
       [SplitChange m [0x6D, 0x6D] [0x30, 0x37]]) \<and>
      m [0x6D, 0x6D] = Some [0x30, 0x37] \<and> m [0x64, 0x64] = Some [0x31, 0x35])"
proof -
  let ?p = "(default_props (0::nat) :: (nat, nat, nat) props)
        \<lparr>type := Split, onSplitChange := True,
         splitFields :=
           [\<lparr>key = [0x6D, 0x6D], field_keyboardType = None, field_autoCapitalize = None,
             field_maxLength = None, field_secureTextEntry = None, field_editable = None\<rparr>,
            \<lparr>key = [0x64, 0x64], field_keyboardType = None, field_autoCapitalize = None,
             field_maxLength = None, field_secureTextEntry = None, field_editable = None\<rparr>],
         splitValues := Map.empty([0x64, 0x64] \<mapsto> [0x31, 0x35])\<rparr>"
  let ?st = "\<lparr>isFocused = False, otpValues = [], otpFocusedIndex = 0, splitFocusedKey = [],
       otpRefs = [], nextRef = 0\<rparr>"
  have k: "[0x6D, 0x6D] \<in> key ` set (splitFields ?p)" by (simp add: default_props_def)
  have c: "onSplitChange ?p" by (simp add: default_props_def)
  from split_edit_callback [of "[0x6D, 0x6D]" ?p ?st "[0x30, 0x37]"] k c
  obtain m where m: "handleSplitChange ?p ?st [0x6D, 0x6D] [0x30, 0x37] =
        (?st, [SplitChange m [0x6D, 0x6D] [0x30, 0x37]])"
      "m [0x6D, 0x6D] = Some [0x30, 0x37]"
      "\<forall>k'. k' \<noteq> [0x6D, 0x6D] \<longrightarrow> m k' = splitValues ?p k'"
    by blast
  from m(3) have "m [0x64, 0x64] = Some [0x31, 0x35]" by (simp add: default_props_def)
  with k m(1,2) show ?thesis by blast
qed

section \<open>Style arrays\<close>




section \<open>Out-of-range indices\<close>

text \<open>
  Claim C7, as amended. Given an index below 0 or not below \<open>L\<close>, each of the four OTP
  handlers leaves the whole state, and so the cell values and the focused index, as it
  is. The change, paste and key press handlers log one warning each and do nothing else;
  the focus handler logs nothing.
\<close>

theorem out_of_range_index_is_ignored:
  assumes "otpLength p = of_nat L" and "i < 0 \<or> int L \<le> i"
  shows "handleOtpChange p st t i = (st, [Warn (InvalidOtpIndex i)]) \<and>
         handleOtpPaste p st t i = (st, [Warn (InvalidPasteIndex i)]) \<and>
         handleOtpKeyPress p st k i = (st, [Warn (InvalidKeyPressIndex i)]) \<and>
         handleOtpFocus p st i = (st, [])"
proof -
  have "i < 0 \<or> otpLength p \<le> of_int i"
    using assms by (auto simp: of_nat_le_of_int_rat)
  then show ?thesis
    by (simp add: out_of_range_warns handleOtpFocus_out_of_range)
qed

theorem out_of_range_index_is_ignored_witness:
  "otpLength ((default_props (0::nat) :: (nat, nat, nat) props)\<lparr>type := Otp\<rparr>) = of_nat 6 \<and>
   int 6 \<le> 6 \<and>
   handleOtpChange
     ((default_props (0::nat) :: (nat, nat, nat) props)\<lparr>type := Otp\<rparr>)
     \<lparr>isFocused = False,
      otpValues = [Some [], Some [], Some [], Some [], Some [], Some []],
      otpFocusedIndex = 0, splitFocusedKey = [], otpRefs = [0, 1, 2, 3, 4, 5],
      nextRef = 6\<rparr> [0x35] 6 =
     (\<lparr>isFocused = False,
       otpValues = [Some [], Some [], Some [], Some [], Some [], Some []],
       otpFocusedIndex = 0, splitFocusedKey = [], otpRefs = [0, 1, 2, 3, 4, 5],
       nextRef = 6\<rparr>, [Warn (InvalidOtpIndex 6)]) \<and>
   handleOtpKeyPress
     ((default_props (0::nat) :: (nat, nat, nat) props)\<lparr>type := Otp\<rparr>)
     \<lparr>isFocused = False,
      otpValues = [Some [], Some [], Some [], Some [], Some [], Some []],
      otpFocusedIndex = 0, splitFocusedKey = [], otpRefs = [0, 1, 2, 3, 4, 5],
      nextRef = 6\<rparr> Backspace 6 =
     (\<lparr>isFocused = False,
       otpValues = [Some [], Some [], Some [], Some [], Some [], Some []],
       otpFocusedIndex = 0, splitFocusedKey = [], otpRefs = [0, 1, 2, 3, 4, 5],
       nextRef = 6\<rparr>, [Warn (InvalidKeyPressIndex 6)])"
proof -
  let ?p = "(default_props (0::nat) :: (nat, nat, nat) props)\<lparr>type := Otp\<rparr>"
  have h1: "otpLength ?p = of_nat 6" by (simp add: default_props_def)
  have h2: "(6::int) < 0 \<or> int 6 \<le> 6" by simp
  note T = out_of_range_index_is_ignored [OF h1 h2]
  from T [of _ "[0x35]"] T [of _ _ Backspace] h1 show ?thesis by simp
qed

text \<open>
  The claim as stated has every operation log a warning. The focus handler, for the
  default length 6 and the indices 6 and -1, has no effect at all.
\<close>

theorem out_of_range_index_is_ignored_counterexample:
  "handleOtpFocus
     ((default_props (0::nat) :: (nat, nat, nat) props)\<lparr>type := Otp\<rparr>)
     \<lparr>isFocused = False,
      otpValues = [Some [], Some [], Some [], Some [], Some [], Some []],
      otpFocusedIndex = 0, splitFocusedKey = [], otpRefs = [0, 1, 2, 3, 4, 5],
      nextRef = 6\<rparr> 6 =
     (\<lparr>isFocused = False,
       otpValues = [Some [], Some [], Some [], Some [], Some [], Some []],
       otpFocusedIndex = 0, splitFocusedKey = [], otpRefs = [0, 1, 2, 3, 4, 5],
       nextRef = 6\<rparr>, []) \<and>
   handleOtpFocus
     ((default_props (0::nat) :: (nat, nat, nat) props)\<lparr>type := Otp\<rparr>)
     \<lparr>isFocused = False,
      otpValues = [Some [], Some [], Some [], Some [], Some [], Some []],
      otpFocusedIndex = 0, splitFocusedKey = [], otpRefs = [0, 1, 2, 3, 4, 5],
      nextRef = 6\<rparr> (- 1) =
     (\<lparr>isFocused = False,
       otpValues = [Some [], Some [], Some [], Some [], Some [], Some []],
       otpFocusedIndex = 0, splitFocusedKey = [], otpRefs = [0, 1, 2, 3, 4, 5],
       nextRef = 6\<rparr>, [])"
  by (simp add: handleOtpFocus_def default_props_def)

section \<open>Per-field overrides\<close>

text \<open>
  Claim C8, as amended. For a split field descriptor, the keyboard type, the capitalization
  and the editable flag are the descriptor's when it sets them and the group's otherwise;
  the secure flag is the group's when the descriptor leaves it unset, and true when the
  descriptor sets it to true; the maximal length is the descriptor's alone, set or unset.
  \<open>renderSplitInputs\<close> does this for each descriptor, in order.
\<close>

theorem split_field_overrides:
  "(\<forall>k. field_keyboardType f = Some k \<longrightarrow> input_keyboardType (renderSplitInput p f) = k) \<and>
   (field_keyboardType f = None \<longrightarrow>
      input_keyboardType (renderSplitInput p f) = keyboardType p) \<and>
   (\<forall>c. field_autoCapitalize f = Some c \<longrightarrow>
      input_autoCapitalize (renderSplitInput p f) = c) \<and>
   (field_autoCapitalize f = None \<longrightarrow>
      input_autoCapitalize (renderSplitInput p f) = autoCapitalize p) \<and>
   (\<forall>e. field_editable f = Some e \<longrightarrow> input_editable (renderSplitInput p f) = e) \<and>
   (field_editable f = None \<longrightarrow> input_editable (renderSplitInput p f) = editable p) \<and>
   (field_secureTextEntry f = Some True \<longrightarrow> input_secureTextEntry (renderSplitInput p f)) \<and>
   (field_secureTextEntry f = None \<longrightarrow>
      input_secureTextEntry (renderSplitInput p f) = secureTextEntry p) \<and>
   input_maxLength (renderSplitInput p f) = field_maxLength f \<and>
   length (renderSplitInputs p) = length (splitFields p) \<and>
   (\<forall>n. n < length (splitFields p) \<longrightarrow>
      renderSplitInputs p ! n = renderSplitInput p (splitFields p ! n))"
  by (simp add: renderSplitInput_def renderSplitInputs_def or_else_def or_bool_def)

theorem split_field_overrides_witness:
  "field_keyboardType
     \<lparr>key = [0x6D, 0x6D], field_keyboardType = Some ''numeric'',
      field_autoCapitalize = None, field_maxLength = Some 2, field_secureTextEntry = None,
      field_editable = Some False\<rparr> = Some ''numeric'' \<and>
   input_keyboardType (renderSplitInput
     ((default_props ''default'' :: (string, nat, nat) props)
        \<lparr>type := Split, maxLength := Some 4\<rparr>)
     \<lparr>key = [0x6D, 0x6D], field_keyboardType = Some ''numeric'',
      field_autoCapitalize = None, field_maxLength = Some 2, field_secureTextEntry = None,
      field_editable = Some False\<rparr>) = ''numeric'' \<and>
   input_autoCapitalize (renderSplitInput
     ((default_props ''default'' :: (string, nat, nat) props)
        \<lparr>type := Split, maxLength := Some 4\<rparr>)
     \<lparr>key = [0x6D, 0x6D], field_keyboardType = Some ''numeric'',
      field_autoCapitalize = None, field_maxLength = Some 2, field_secureTextEntry = None,
      field_editable = Some False\<rparr>) = Cap_none \<and>
   \<not> input_editable (renderSplitInput
     ((default_props ''default'' :: (string, nat, nat) props)
        \<lparr>type := Split, maxLength := Some 4\<rparr>)
     \<lparr>key = [0x6D, 0x6D], field_keyboardType = Some ''numeric'',
      field_autoCapitalize = None, field_maxLength = Some 2, field_secureTextEntry = None,
      field_editable = Some False\<rparr>) \<and>
   input_maxLength (renderSplitInput
     ((default_props ''default'' :: (string, nat, nat) props)
        \<lparr>type := Split, maxLength := Some 4\<rparr>)
     \<lparr>key = [0x6D, 0x6D], field_keyboardType = Some ''numeric'',
      field_autoCapitalize = None, field_maxLength = Some 2, field_secureTextEntry = None,
      field_editable = Some False\<rparr>) = Some 2"
proof -
  let ?p = "(default_props ''default'' :: (string, nat, nat) props)
        \<lparr>type := Split, maxLength := Some 4\<rparr>"
  let ?f = "\<lparr>key = [0x6D, 0x6D], field_keyboardType = Some ''numeric'',
      field_autoCapitalize = None, field_maxLength = Some 2, field_secureTextEntry = None,
      field_editable = Some False\<rparr>"
  note T = split_field_overrides [of ?f ?p]
  have k: "field_keyboardType ?f = Some ''numeric''" by simp
  have a: "field_autoCapitalize ?f = None" by simp
  have e: "field_editable ?f = Some False" by simp
  from T k have "input_keyboardType (renderSplitInput ?p ?f) = ''numeric''" by blast
  moreover from T a have "input_autoCapitalize (renderSplitInput ?p ?f) = autoCapitalize ?p"
    by blast
  then have "input_autoCapitalize (renderSplitInput ?p ?f) = Cap_none"
    by (simp add: default_props_def)
  moreover from T e have "input_editable (renderSplitInput ?p ?f) = False" by blast
  moreover from T have "input_maxLength (renderSplitInput ?p ?f) = field_maxLength ?f"
    by blast
  then have "input_maxLength (renderSplitInput ?p ?f) = Some 2" by simp
  ultimately show ?thesis using k by simp
qed

text \<open>
  The claim as stated has the maximal length fall back to the group's. A descriptor that
  sets none, in a group whose maximal length is 4, gets none.
\<close>

theorem split_field_overrides_counterexample:
  "field_maxLength
     \<lparr>key = [0x6D, 0x6D], field_keyboardType = None :: string option,
      field_autoCapitalize = None, field_maxLength = None, field_secureTextEntry = None,
      field_editable = None\<rparr> = None \<and>
   maxLength ((default_props ''default'' :: (string, nat, nat) props)
      \<lparr>type := Split, maxLength := Some 4\<rparr>) = Some 4 \<and>
   input_maxLength (renderSplitInput
     ((default_props ''default'' :: (string, nat, nat) props)
        \<lparr>type := Split, maxLength := Some 4\<rparr>)
     \<lparr>key = [0x6D, 0x6D], field_keyboardType = None, field_autoCapitalize = None,
      field_maxLength = None, field_secureTextEntry = None, field_editable = None\<rparr>) = None"
  by (simp add: renderSplitInput_def default_props_def)

section \<open>Backspace and deletion\<close>

text \<open>
  Claim C9. A Backspace key press on an empty cell at an index \<open>i\<close> with \<open>0 < i < L\<close>
  calls \<open>focus()\<close> on the cell \<open>i - 1\<close>, whose focus handler records that index; at the index
  0 it does nothing. No key press at any index asks for the focus of a cell below 0.
\<close>

theorem backspace_on_empty_cell:
  assumes "otpLength p = of_nat L" and "0 \<le> i" and "i < int L"
    and "\<not> truthy (js_get (otpValues st) (nat i))"
  shows "(0 < i \<longrightarrow>
           handleOtpKeyPress p st Backspace i = (st, [Call (RefFocus (i - 1))]) \<and>
           otpFocusedIndex (fst (handleOtpFocus p st (i - 1))) = i - 1) \<and>
         (i = 0 \<longrightarrow> handleOtpKeyPress p st Backspace i = (st, [])) \<and>
         (\<forall>event_key j k.
            Call (RefFocus k) \<in> set (snd (handleOtpKeyPress p st event_key j)) \<longrightarrow> 0 \<le> k)"
proof (intro conjI impI allI)
  have inr: "\<not> (i < 0 \<or> otpLength p \<le> of_int i)"
    using assms(1-3) by (simp add: in_range_iff)
  show "handleOtpKeyPress p st Backspace i = (st, [Call (RefFocus (i - 1))])" if "0 < i"
    using inr that assms(4) by (simp add: handleOtpKeyPress_def)
  show "otpFocusedIndex (fst (handleOtpFocus p st (i - 1))) = i - 1" if "0 < i"
  proof -
    have "0 \<le> i - 1 \<and> of_int (i - 1) < otpLength p"
      using that assms(1,3) by (simp only: of_int_less_of_nat_rat) simp
    then show ?thesis by (simp add: handleOtpFocus_def)
  qed
  show "handleOtpKeyPress p st Backspace i = (st, [])" if "i = 0"
    using inr that by (simp add: handleOtpKeyPress_def)
  show "0 \<le> k" if "Call (RefFocus k) \<in> set (snd (handleOtpKeyPress p st event_key j))"
    for event_key j k
    using that by (auto simp: handleOtpKeyPress_def split: if_splits)
qed

theorem backspace_on_empty_cell_witness:
  "otpLength ((default_props (0::nat) :: (nat, nat, nat) props)
       \<lparr>type := Otp, otpLength := 4\<rparr>) = of_nat 4 \<and>
   (0::int) \<le> 1 \<and> (1::int) < int 4 \<and>
   \<not> truthy (js_get [Some [0x39], Some [], Some [], Some []] (nat 1)) \<and>
   handleOtpKeyPress
     ((default_props (0::nat) :: (nat, nat, nat) props)\<lparr>type := Otp, otpLength := 4\<rparr>)
     \<lparr>isFocused = False, otpValues = [Some [0x39], Some [], Some [], Some []],
      otpFocusedIndex = 1, splitFocusedKey = [], otpRefs = [0, 1, 2, 3], nextRef = 4\<rparr>
     Backspace 1 =
     (\<lparr>isFocused = False, otpValues = [Some [0x39], Some [], Some [], Some []],
       otpFocusedIndex = 1, splitFocusedKey = [], otpRefs = [0, 1, 2, 3], nextRef = 4\<rparr>,
      [Call (RefFocus 0)])"
proof -
  let ?p = "(default_props (0::nat) :: (nat, nat, nat) props)\<lparr>type := Otp, otpLength := 4\<rparr>"
  let ?st = "\<lparr>isFocused = False, otpValues = [Some [0x39], Some [], Some [], Some []],
      otpFocusedIndex = 1, splitFocusedKey = [], otpRefs = [0, 1, 2, 3], nextRef = 4\<rparr>"
  have h1: "otpLength ?p = of_nat 4" by (simp add: default_props_def)
  have h2: "(0::int) \<le> 1" and h3: "(1::int) < int 4" by simp_all
  have h4: "\<not> truthy (js_get (otpValues ?st) (nat 1))" by (simp add: js_get_def)
  from backspace_on_empty_cell [OF h1 h2 h3 h4]
  have "handleOtpKeyPress ?p ?st Backspace 1 = (?st, [Call (RefFocus 0)])" by simp
  with h1 h2 h3 h4 show ?thesis by simp
qed

text \<open>
  Claim C10, as amended. For an index \<open>i\<close> with \<open>0 \<le> i < L\<close>, the change handler given the
  empty string sets the cell \<open>i\<close> to empty, leaves every other cell as it reads and the rest
  of the state as it is, invokes the change callback (when there is one) once with the
  entries of the cell array joined in order, and calls no \<open>focus()\<close>. When the cell array has
  at most \<open>L\<close> entries, that argument is the aggregate of the \<open>L\<close> cells of the grid. For any
  text, the handler calls \<open>focus()\<close> at once exactly when the text is one code unit and \<open>i\<close>
  is below \<open>L - 1\<close>, and then on the cell \<open>i + 1\<close>.
\<close>

theorem clearing_a_cell:
  assumes "otpLength p = of_nat L" and "0 \<le> i" and "i < int L"
  shows "fst (handleOtpChange p st [] i) =
           st\<lparr>otpValues := otpValues (fst (handleOtpChange p st [] i))\<rparr> \<and>
         js_get (otpValues (fst (handleOtpChange p st [] i))) (nat i) = Some [] \<and>
         (\<forall>j. j \<noteq> nat i \<longrightarrow>
            js_get (otpValues (fst (handleOtpChange p st [] i))) j = js_get (otpValues st) j) \<and>
         snd (handleOtpChange p st [] i) =
           (if onOtpChange p
            then [OtpChange (concat (map (\<lambda>c. case c of None \<Rightarrow> [] | Some s \<Rightarrow> s)
                    (otpValues (fst (handleOtpChange p st [] i)))))]
            else []) \<and>
         (length (otpValues st) \<le> L \<longrightarrow>
            snd (handleOtpChange p st [] i) =
              (if onOtpChange p
               then [OtpChange (spec_aggregate L (otpValues (fst (handleOtpChange p st [] i))))]
               else [])) \<and>
         (\<forall>text k. Call (RefFocus k) \<in> set (snd (handleOtpChange p st text i)) \<longleftrightarrow>
            length text = 1 \<and> i < int L - 1 \<and> k = i + 1)"
proof (intro conjI allI impI)
  have inr: "\<not> (i < 0 \<or> otpLength p \<le> of_int i)"
    using assms by (simp add: in_range_iff)
  let ?new = "js_set (otpValues st) (nat i) (Some [])"
  have e: "handleOtpChange p st [] i =
      (st\<lparr>otpValues := ?new\<rparr>, if onOtpChange p then [OtpChange (join ?new)] else [])"
    using inr by (simp add: handleOtpChange_def Let_def)
  show "fst (handleOtpChange p st [] i) =
      st\<lparr>otpValues := otpValues (fst (handleOtpChange p st [] i))\<rparr>"
    by (simp add: e)
  show "js_get (otpValues (fst (handleOtpChange p st [] i))) (nat i) = Some []"
    by (simp add: e js_get_set)
  show "js_get (otpValues (fst (handleOtpChange p st [] i))) j = js_get (otpValues st) j"
    if "j \<noteq> nat i" for j
    using that by (simp add: e js_get_set)
  show s: "snd (handleOtpChange p st [] i) =
      (if onOtpChange p
       then [OtpChange (concat (map (\<lambda>c. case c of None \<Rightarrow> [] | Some s \<Rightarrow> s)
               (otpValues (fst (handleOtpChange p st [] i)))))]
       else [])"
    by (simp add: e join_def)
  show "snd (handleOtpChange p st [] i) =
      (if onOtpChange p
       then [OtpChange (spec_aggregate L (otpValues (fst (handleOtpChange p st [] i))))]
       else [])" if "length (otpValues st) \<le> L"
  proof -
    have "length ?new \<le> L"
      using that assms(2,3) by (simp add: length_js_set)
    then have "spec_aggregate L ?new =
        concat (map (\<lambda>c. case c of None \<Rightarrow> [] | Some s \<Rightarrow> s) ?new)"
      by (rule spec_aggregate_join)
    then show ?thesis by (simp add: e join_def)
  qed
  show "Call (RefFocus k) \<in> set (snd (handleOtpChange p st t i)) \<longleftrightarrow>
      length t = 1 \<and> i < int L - 1 \<and> k = i + 1" for t k
  proof (cases "length t > 1")
    case True
    then have "handleOtpChange p st t i = handleOtpPaste p st t i"
      using inr by (simp add: handleOtpChange_def)
    with True show ?thesis by (simp add: handleOtpPaste_no_call)
  next
    case False
    have lt: "(of_int i < otpLength p - 1) = (i < int L - 1)"
    proof -
      have "otpLength p - 1 = of_int (int L - 1)" using assms(1) by simp
      then show ?thesis by (simp only: of_int_less_iff)
    qed
    have "t \<noteq> [] \<longleftrightarrow> length t = 1" using False by (cases t) auto
    then show ?thesis
      using False inr lt by (auto simp: handleOtpChange_def Let_def)
  qed
qed

theorem clearing_a_cell_witness:
  "otpLength ((default_props (0::nat) :: (nat, nat, nat) props)
       \<lparr>type := Otp, otpLength := 4, onOtpChange := True\<rparr>) = of_nat 4 \<and>
   (0::int) \<le> 1 \<and> (1::int) < int 4 \<and>
   length [Some [0x39], Some [0x35], Some [0x36], Some []] \<le> (4::nat) \<and>
   handleOtpChange
     ((default_props (0::nat) :: (nat, nat, nat) props)
        \<lparr>type := Otp, otpLength := 4, onOtpChange := True\<rparr>)
     \<lparr>isFocused = False, otpValues = [Some [0x39], Some [0x35], Some [0x36], Some []],
      otpFocusedIndex = 1, splitFocusedKey = [], otpRefs = [0, 1, 2, 3], nextRef = 4\<rparr>
     [] 1 =
     (\<lparr>isFocused = False, otpValues = [Some [0x39], Some [], Some [0x36], Some []],
       otpFocusedIndex = 1, splitFocusedKey = [], otpRefs = [0, 1, 2, 3], nextRef = 4\<rparr>,
      [OtpChange [0x39, 0x36]])"
proof -
  let ?p = "(default_props (0::nat) :: (nat, nat, nat) props)
       \<lparr>type := Otp, otpLength := 4, onOtpChange := True\<rparr>"
  let ?st = "\<lparr>isFocused = False, otpValues = [Some [0x39], Some [0x35], Some [0x36], Some []],
      otpFocusedIndex = 1, splitFocusedKey = [], otpRefs = [0, 1, 2, 3], nextRef = 4\<rparr>"
  let ?new = "otpValues (fst (handleOtpChange ?p ?st [] 1))"
  have h1: "otpLength ?p = of_nat 4" by (simp add: default_props_def)
  have h2: "(0::int) \<le> 1" and h3: "(1::int) < int 4" by simp_all
  have h4: "length (otpValues ?st) \<le> 4" by simp
  note T = clearing_a_cell [OF h1 h2 h3, of ?st]
  have new: "?new = [Some [0x39], Some [], Some [0x36], Some []]"
    by (simp add: handleOtpChange_def default_props_def js_set_def Let_def)
  from T have f: "fst (handleOtpChange ?p ?st [] 1) = ?st\<lparr>otpValues := ?new\<rparr>"
    by (rule conjunct1)
  from T h4 have "snd (handleOtpChange ?p ?st [] 1) =
      (if onOtpChange ?p then [OtpChange (spec_aggregate 4 ?new)] else [])"
    by blast
  then have s: "snd (handleOtpChange ?p ?st [] 1) = [OtpChange [0x39, 0x36]]"
    unfolding new
    by (simp add: default_props_def spec_aggregate_def js_get_def upt_rec)
  from f have "fst (handleOtpChange ?p ?st [] 1) =
      \<lparr>isFocused = False, otpValues = [Some [0x39], Some [], Some [0x36], Some []],
       otpFocusedIndex = 1, splitFocusedKey = [], otpRefs = [0, 1, 2, 3], nextRef = 4\<rparr>"
    unfolding new by simp
  with s have "handleOtpChange ?p ?st [] 1 =
      (\<lparr>isFocused = False, otpValues = [Some [0x39], Some [], Some [0x36], Some []],
        otpFocusedIndex = 1, splitFocusedKey = [], otpRefs = [0, 1, 2, 3], nextRef = 4\<rparr>,
       [OtpChange [0x39, 0x36]])"
    by (simp add: prod_eq_iff)
  with h1 h2 h3 show ?thesis by simp
qed

text \<open>
  The claim as stated fails when the cell array is longer than the configured length,
  which it stays after the length was made smaller. With \<open>L = 2\<close> and the array
  \<open>1, 2, 3, 4\<close>, clearing the cell 0 reports \<open>234\<close>, where the two cells of the grid read
  empty and \<open>2\<close>.
\<close>

theorem clearing_a_cell_counterexample:
  "handleOtpChange
     ((default_props (0::nat) :: (nat, nat, nat) props)
        \<lparr>type := Otp, otpLength := 2, onOtpChange := True\<rparr>)
     \<lparr>isFocused = False, otpValues = [Some [0x31], Some [0x32], Some [0x33], Some [0x34]],
      otpFocusedIndex = 0, splitFocusedKey = [], otpRefs = [0, 1], nextRef = 4\<rparr>
     [] 0 =
     (\<lparr>isFocused = False, otpValues = [Some [], Some [0x32], Some [0x33], Some [0x34]],
       otpFocusedIndex = 0, splitFocusedKey = [], otpRefs = [0, 1], nextRef = 4\<rparr>,
      [OtpChange [0x32, 0x33, 0x34]]) \<and>
   spec_aggregate 2 [Some [], Some [0x32], Some [0x33], Some [0x34]] = [0x32]"
  by (simp add: handleOtpChange_def default_props_def js_set_def js_get_def join_def
      spec_aggregate_def upt_rec)

end
